theory Spec2Isabelle
  imports Main "HOL-Library.Sublist"
begin

section \<open>Strings and bytes\<close>

text \<open>
  A Python \<open>str\<close> is a sequence of Unicode code points and \<open>len\<close> counts code points,
  so a text is modelled as a list of code points (natural numbers). The ASCII literals
  of the source are written \<open>lit ''...''\<close>. A Python \<open>bytes\<close> value is a list of
  8-bit characters.
\<close>

type_synonym str = "nat list"

type_synonym bytes = "char list"

definition lit :: "string \<Rightarrow> str" where
  "lit s = map of_char s"

text \<open>
  The slice \<open>text[:n]\<close> of Python: for \<open>n \<ge> 0\<close> the first \<open>n\<close> elements (all of them
  when \<open>n\<close> exceeds the length); for \<open>n < 0\<close> everything but the last \<open>-n\<close> elements
  (nothing when \<open>-n\<close> exceeds the length).
\<close>

definition slice_to :: "str \<Rightarrow> int \<Rightarrow> str" where
  "slice_to text n =
     (if 0 \<le> n then take (nat n) text
      else take (length text - nat (- n)) text)"

section \<open>The log truncator (\<open>_truncate_for_log\<close>, shell.py lines 16-20)\<close>

text \<open>
  \<^verbatim>\<open>
  def _truncate_for_log(text: str, max_length: int = 300) -> str:
      if len(text) <= max_length:
          return text
      return text[:max_length] + "... [truncated]"
  \<close>
  The parameter \<open>max_length\<close> is a Python \<open>int\<close>, so it may be negative.
\<close>

definition truncate_for_log :: "str \<Rightarrow> int \<Rightarrow> str" where
  "truncate_for_log text max_length =
     (if int (length text) \<le> max_length then text
      else slice_to text max_length @ lit ''... [truncated]'')"

section \<open>Session memory (\<open>_global_memory\<close>)\<close>

text \<open>
  \<open>_global_memory\<close> is a process-wide dictionary. \<open>run_shell_command\<close> touches only its
  \<open>"config"\<close> entry, itself a dictionary from option names to Python values; the flag
  \<open>cowboy_mode\<close> is tested for truthiness (\<open>if cowboy_mode:\<close>).
\<close>

datatype pyval = PNone | PBool bool | PInt int | PStr str

fun truthy :: "pyval \<Rightarrow> bool" where
  "truthy PNone = False"
| "truthy (PBool b) = b"
| "truthy (PInt i) = (i \<noteq> 0)"
| "truthy (PStr s) = (s \<noteq> [])"

type_synonym config = "str \<rightharpoonup> pyval"

type_synonym memory = "str \<rightharpoonup> config"

text \<open>Line 47: \<open>_global_memory.get("config", {}).get("cowboy_mode", False)\<close>.\<close>

definition cowboy_mode :: "memory \<Rightarrow> pyval" where
  "cowboy_mode mem =
     (let config = (case mem (lit ''config'') of None \<Rightarrow> Map.empty | Some c \<Rightarrow> c)
      in case config (lit ''cowboy_mode'') of None \<Rightarrow> PBool False | Some v \<Rightarrow> v)"

text \<open>
  Line 75: \<open>_global_memory["config"]["cowboy_mode"] = True\<close>. The subscript
  \<open>_global_memory["config"]\<close> raises \<open>KeyError\<close> when the entry is missing.
\<close>

datatype key_error = KeyError str

definition set_cowboy_mode :: "memory \<Rightarrow> key_error + memory" where
  "set_cowboy_mode mem =
     (case mem (lit ''config'') of
        None \<Rightarrow> Inl (KeyError (lit ''config''))
      | Some c \<Rightarrow> Inr (mem(lit ''config'' \<mapsto> c(lit ''cowboy_mode'' \<mapsto> PBool True))))"

section \<open>Collaborators of \<open>run_shell_command\<close>\<close>

text \<open>
  An exception raised by a collaborator is an instance of a subclass of \<open>Exception\<close>;
  the code only reads its message \<open>str(e)\<close>.
\<close>

datatype exc = Exception str

fun str_of :: "exc \<Rightarrow> str" where
  "str_of (Exception msg) = msg"

text \<open>
  The functions that \<open>shell.py\<close> imports are parameters of the model:
  \<^item> \<open>get_cowboy_message()\<close> returns some message;
  \<^item> \<open>answer\<close> is what the user types at the prompt, \<open>None\<close> when the user gives no
    explicit answer;
  \<^item> \<open>run_interactive_command(argv, expected_runtime_seconds)\<close> returns the captured
    bytes and the return code, or raises;
  \<^item> \<open>output.decode()\<close> returns the text or raises;
  \<^item> \<open>truncate_output\<close> shortens the decoded text.
\<close>

record env =
  get_cowboy_message :: str
  answer :: "str option"
  run_interactive_command :: "str list \<Rightarrow> int \<Rightarrow> exc + (bytes \<times> int)"
  decode :: "bytes \<Rightarrow> exc + str"
  truncate_output :: "str \<Rightarrow> str"

text \<open>
  Modelled from the spec: \<open>Prompt.ask\<close> of the terminal library, the user-confirmation
  collaborator, is not part of the source. It "accepts a prompt string and an enumerated
  set of valid single-character responses with a default; returns one response", the
  default "if the environment supplies no explicit answer".
\<close>

definition Prompt_ask :: "str option \<Rightarrow> str \<Rightarrow> str list \<Rightarrow> str \<Rightarrow> str" where
  "Prompt_ask reply prompt choices default_choice =
     (case reply of None \<Rightarrow> default_choice | Some response \<Rightarrow> response)"

text \<open>
  What the function does to the outside world, in order: writes to the console
  (\<open>console.print\<close> of a text or of a panel with body, title and border style; the bare
  \<open>print()\<close>), the prompt, the call of the supervisor, and the work-log entry.
\<close>

datatype event =
    ConsolePrint str
  | ConsolePanel str str str
  | Print
  | PromptAsk str "str list" str
  | RunInteractive "str list" int
  | LogWorkEvent str

fun is_prompt :: "event \<Rightarrow> bool" where
  "is_prompt (PromptAsk p cs d) = True"
| "is_prompt e = False"

fun is_run :: "event \<Rightarrow> bool" where
  "is_run (RunInteractive argv t) = True"
| "is_run e = False"

section \<open>\<open>run_shell_command\<close> (shell.py lines 24-94)\<close>

text \<open>
  The returned dictionary \<open>{"output": ..., "return_code": ..., "success": ...}\<close>; the field
  \<open>output\<close> is called \<open>output_text\<close> here.
\<close>

record ExecutionResult =
  output_text :: str
  return_code :: int
  success :: bool

text \<open>
  Lines 80-94, the \<open>try\<close> block and its handler. Every exception raised inside the block
  (by the supervisor or by \<open>decode\<close>) ends in the handler, which prints an error panel
  and returns a result. The panel titles of the source start with an emoji, left out here.
\<close>

definition attempt :: "env \<Rightarrow> str \<Rightarrow> int \<Rightarrow> ExecutionResult \<times> event list" where
  "attempt e command expected_runtime_seconds =
     (let argv = [lit ''/bin/bash'', lit ''-c'', command];
          handler = (\<lambda>ex. \<lparr>output_text = str_of ex, return_code = 1, success = False\<rparr>);
          panel = (\<lambda>ex. ConsolePanel (str_of ex) (lit ''Error'') (lit ''red''))
      in case run_interactive_command e argv expected_runtime_seconds of
           Inl ex \<Rightarrow>
             (handler ex, [Print, RunInteractive argv expected_runtime_seconds, Print, panel ex])
         | Inr (out, rc) \<Rightarrow>
             (case (if out \<noteq> [] then
                      (case decode e out of Inl ex \<Rightarrow> Inl ex
                                          | Inr text \<Rightarrow> Inr (truncate_output e text))
                    else Inr []) of
                Inl ex \<Rightarrow>
                  (handler ex,
                   [Print, RunInteractive argv expected_runtime_seconds, Print, Print, panel ex])
              | Inr text \<Rightarrow>
                  (\<lparr>output_text = text, return_code = rc, success = (rc = 0)\<rparr>,
                   [Print, RunInteractive argv expected_runtime_seconds, Print,
                    LogWorkEvent (lit ''Executed shell command: '' @ truncate_for_log command 300)])))"

definition cancelled :: ExecutionResult where
  "cancelled = \<lparr>output_text = lit ''Command execution cancelled by user'',
                 return_code = 1, success = False\<rparr>"

definition prompt_text :: str where
  "prompt_text = lit ''Execute this command? (y=yes, n=no, c=enable cowboy mode for session)''"

definition cowboy_banner :: "env \<Rightarrow> event list" where
  "cowboy_banner e =
     [ConsolePrint [], ConsolePrint (lit '' '' @ get_cowboy_message e), ConsolePrint []]"

text \<open>
  The whole function: the result (or the \<open>KeyError\<close> that leaves the function), the
  session memory afterwards, and the events in the order they happen.
\<close>

definition run_shell_command ::
  "env \<Rightarrow> memory \<Rightarrow> str \<Rightarrow> int \<Rightarrow> (key_error + ExecutionResult) \<times> memory \<times> event list" where
  "run_shell_command e mem command expected_runtime_seconds =
     (let cowboy = truthy (cowboy_mode mem);
          shown = (if cowboy then cowboy_banner e else [])
                  @ [ConsolePanel command (lit ''Shell'') (lit ''bright_yellow'')];
          run = (\<lambda>mem' before.
                   case attempt e command expected_runtime_seconds of
                     (result, evs) \<Rightarrow> (Inr result, mem', before @ evs))
      in if \<not> cowboy then
           (let choices = [lit ''y'', lit ''n'', lit ''c''];
                response = Prompt_ask (answer e) prompt_text choices (lit ''y'');
                asked = shown @ [PromptAsk prompt_text choices (lit ''y'')]
            in if response = lit ''n'' then (Inr cancelled, mem, asked @ [Print])
               else if response = lit ''c'' then
                 (case set_cowboy_mode mem of
                    Inl err \<Rightarrow> (Inl err, mem, asked)
                  | Inr mem' \<Rightarrow> run mem' (asked @ cowboy_banner e))
               else run mem asked)
         else run mem shown)"

abbreviation outcome :: "'a \<times> 'b \<times> 'c \<Rightarrow> 'a" where
  "outcome r \<equiv> fst r"

abbreviation memory_after :: "'a \<times> 'b \<times> 'c \<Rightarrow> 'b" where
  "memory_after r \<equiv> fst (snd r)"

abbreviation events :: "'a \<times> 'b \<times> 'c \<Rightarrow> 'c" where
  "events r \<equiv> snd (snd r)"

section \<open>The process supervisor (\<open>ra_aid.proc.interactive\<close>)\<close>

text \<open>
  Modelled from the spec: \<open>run_interactive_command\<close> lives in \<open>ra_aid/proc/interactive.py\<close>,
  which is not among the source files; only its call and the docstring of
  \<open>run_shell_command\<close> ("If process exceeds 2x this value, it will be terminated gracefully.
  If process exceeds 3x this value, it will be killed forcefully.") are. The model follows
  the algorithm of the specification: spawn the child; wait; at \<open>t = 2T\<close>, if the process
  has not exited, send the graceful termination signal and continue waiting; at \<open>t = 3T\<close>,
  if it still has not exited, send the forceful kill signal and reap the process; the
  states are \<open>Running \<rightarrow> GraceRequested \<rightarrow> ForceKilled \<rightarrow> Reaped\<close>.

  Time is discrete: the supervisor polls once per second, starting at second 0. A child
  process is described by what it would do: the second at which it exits on its own (if
  ever), how many seconds after a graceful termination signal it exits (if it honours the
  signal at all), what it has written and its exit status. The forceful kill cannot be
  ignored; the return code of a killed child is \<open>-9\<close>.
\<close>

datatype signal = SIGTERM | SIGKILL

datatype phase = Running | GraceRequested | ForceKilled | Reaped

record child =
  exits_after :: "nat option"
  term_delay :: "nat option"
  child_output :: bytes
  exit_status :: int

record supervision =
  raw_output :: bytes
  exit_code :: int
  signals :: "(nat \<times> signal) list"
  finished_at :: nat
  phases :: "phase list"

definition exited :: "child \<Rightarrow> (nat \<times> signal) list \<Rightarrow> nat \<Rightarrow> bool" where
  "exited c sent now =
     ((case exits_after c of None \<Rightarrow> False | Some n \<Rightarrow> n \<le> now) \<or>
      (case term_delay c of
         None \<Rightarrow> False
       | Some d \<Rightarrow> list_ex (\<lambda>(at, sg). sg = SIGTERM \<and> at + d \<le> now) sent))"

function supervise ::
  "child \<Rightarrow> nat \<Rightarrow> nat \<Rightarrow> nat \<Rightarrow> phase list \<Rightarrow> (nat \<times> signal) list \<Rightarrow> supervision" where
  "supervise c term_at kill_at now path sent =
     (if exited c sent now then
        \<lparr>raw_output = child_output c, exit_code = exit_status c, signals = sent,
         finished_at = now, phases = path @ [Reaped]\<rparr>
      else if GraceRequested \<notin> set path \<and> term_at \<le> now then
        supervise c term_at kill_at now (path @ [GraceRequested]) (sent @ [(now, SIGTERM)])
      else if kill_at \<le> now then
        \<lparr>raw_output = child_output c, exit_code = - 9, signals = sent @ [(now, SIGKILL)],
         finished_at = now, phases = path @ [ForceKilled, Reaped]\<rparr>
      else supervise c term_at kill_at (Suc now) path sent)"
  by pat_completeness auto
termination
  by (relation "measure (\<lambda>(c, term_at, kill_at, now, path, sent).
        2 * (kill_at - now) + (if GraceRequested \<in> set path then 0 else 1))") auto

text \<open>
  \<open>execute(command, expected_runtime_seconds)\<close>: spawning \<open>/bin/bash -c command\<close> either
  fails with an exception or gives a child, which is then supervised with the thresholds
  \<open>2T\<close> and \<open>3T\<close>.
\<close>

definition execute :: "(str list \<Rightarrow> exc + child) \<Rightarrow> str \<Rightarrow> int \<Rightarrow> exc + supervision" where
  "execute spawn command expected_runtime_seconds =
     (case spawn [lit ''/bin/bash'', lit ''-c'', command] of
        Inl ex \<Rightarrow> Inl ex
      | Inr c \<Rightarrow>
          Inr (supervise c (nat (2 * expected_runtime_seconds)) (nat (3 * expected_runtime_seconds))
                 0 [Running] []))"

section \<open>Sample collaborators\<close>

text \<open>
  Concrete collaborators on which the model is evaluated: a supervisor that returns the
  output of \<open>echo hello\<close>, one that fails to spawn, a decoder that maps every byte to its
  code point, and three child processes: one that sleeps for 10 seconds and ignores the
  graceful termination signal, one that sleeps as long but exits one second after the
  graceful signal, and one that exits at once.
\<close>

definition echo_hello :: "str list \<Rightarrow> int \<Rightarrow> exc + (bytes \<times> int)" where
  "echo_hello argv t = Inr (''hello'' @ [CHR 0x0A], 0)"

definition spawn_fails :: "str list \<Rightarrow> int \<Rightarrow> exc + (bytes \<times> int)" where
  "spawn_fails argv t = Inl (Exception (lit ''No such file or directory''))"

definition fixture :: "str option \<Rightarrow> (str list \<Rightarrow> int \<Rightarrow> exc + (bytes \<times> int)) \<Rightarrow> env" where
  "fixture reply supervisor =
     \<lparr>get_cowboy_message = lit ''Yeehaw!'', answer = reply,
      run_interactive_command = supervisor,
      decode = (\<lambda>bs. Inr (map of_char bs)),
      truncate_output = (\<lambda>text. text)\<rparr>"

definition sleeper :: child where
  "sleeper = \<lparr>exits_after = Some 10, term_delay = None, child_output = [], exit_status = 0\<rparr>"

definition obedient :: child where
  "obedient = \<lparr>exits_after = Some 10, term_delay = Some 1, child_output = [], exit_status = 0\<rparr>"

definition quick :: child where
  "quick = \<lparr>exits_after = Some 0, term_delay = Some 0,
            child_output = ''hello'' @ [CHR 0x0A], exit_status = 0\<rparr>"

section \<open>Properties of the log truncator\<close>

lemma length_marker: "length (lit ''... [truncated]'') = 15"
  by (simp add: lit_def)

lemma slice_to_nonneg: "0 \<le> n \<Longrightarrow> slice_to text n = take (nat n) text"
  by (simp add: slice_to_def)

lemma truncate_for_log_long:
  assumes "0 \<le> max_length" and "max_length < int (length text)"
  shows "truncate_for_log text max_length = take (nat max_length) text @ lit ''... [truncated]''"
  using assms by (simp add: truncate_for_log_def slice_to_nonneg)

lemma length_truncate_for_log_long:
  assumes "0 \<le> max_length" and "max_length < int (length text)"
  shows "length (truncate_for_log text max_length) = nat max_length + 15"
proof -
  have "length (take (nat max_length) text) = nat max_length"
    using assms by simp
  then show ?thesis
    using assms by (simp add: truncate_for_log_long length_marker)
qed

text \<open>
  C5. For every text and every positive \<open>max_length\<close>: a text of at most \<open>max_length\<close>
  characters is returned unchanged; a longer one becomes its first \<open>max_length\<close> characters
  followed by the marker \<open>... [truncated]\<close>, so the result has length
  \<open>max_length + len(marker)\<close> and starts with \<open>text[:max_length]\<close>.
\<close>

theorem truncate_for_log_spec:
  assumes "0 < max_length"
  shows "(int (length text) \<le> max_length \<longrightarrow> truncate_for_log text max_length = text) \<and>
         (max_length < int (length text) \<longrightarrow>
            truncate_for_log text max_length = take (nat max_length) text @ lit ''... [truncated]'' \<and>
            length (truncate_for_log text max_length) = nat max_length + length (lit ''... [truncated]'') \<and>
            prefix (take (nat max_length) text) (truncate_for_log text max_length))"
proof (intro conjI impI)
  assume "int (length text) \<le> max_length"
  then show "truncate_for_log text max_length = text"
    by (simp add: truncate_for_log_def)
next
  assume long: "max_length < int (length text)"
  from assms have nonneg: "0 \<le> max_length" by simp
  show eq: "truncate_for_log text max_length = take (nat max_length) text @ lit ''... [truncated]''"
    by (rule truncate_for_log_long [OF nonneg long])
  show "length (truncate_for_log text max_length) = nat max_length + length (lit ''... [truncated]'')"
    using length_truncate_for_log_long [OF nonneg long] by (simp add: length_marker)
  show "prefix (take (nat max_length) text) (truncate_for_log text max_length)"
    unfolding eq by simp
qed

theorem truncate_for_log_spec_witness:
  "(0::int) < 5 \<and>
   truncate_for_log (lit ''abc'') 5 = lit ''abc'' \<and>
   truncate_for_log (lit ''abcdefgh'') 5 = lit ''abcde... [truncated]'' \<and>
   length (truncate_for_log (lit ''abcdefgh'') 5) = 5 + length (lit ''... [truncated]'') \<and>
   prefix (lit ''abcde'') (truncate_for_log (lit ''abcdefgh'') 5)"
proof -
  have pos: "(0::int) < 5" by simp
  have short: "int (length (lit ''abc'')) \<le> 5" by (simp add: lit_def)
  have long: "5 < int (length (lit ''abcdefgh''))" by (simp add: lit_def)
  have tk: "take 5 (lit ''abcdefgh'') = lit ''abcde''" by (simp add: lit_def)
  from truncate_for_log_spec [OF pos, of "lit ''abc''"] short
  have a: "truncate_for_log (lit ''abc'') 5 = lit ''abc''" by blast
  from truncate_for_log_spec [OF pos, of "lit ''abcdefgh''"] long
  have b: "truncate_for_log (lit ''abcdefgh'') 5 = take (nat 5) (lit ''abcdefgh'') @ lit ''... [truncated]'' \<and>
           length (truncate_for_log (lit ''abcdefgh'') 5) = nat 5 + length (lit ''... [truncated]'') \<and>
           prefix (take (nat 5) (lit ''abcdefgh'')) (truncate_for_log (lit ''abcdefgh'') 5)"
    by blast
  have c: "lit ''abcde'' @ lit ''... [truncated]'' = lit ''abcde... [truncated]''"
    by (simp add: lit_def)
  have n5: "nat 5 = (5::nat)" by simp
  from pos a b show ?thesis
    unfolding n5 tk c by blast
qed

lemma truncate_for_log_twice:
  assumes "0 \<le> max_length" and "max_length < int (length text)"
  shows "truncate_for_log (truncate_for_log text max_length) max_length
           = truncate_for_log text max_length"
proof -
  let ?t = "truncate_for_log text max_length"
  have eq: "?t = take (nat max_length) text @ lit ''... [truncated]''"
    by (rule truncate_for_log_long [OF assms])
  have len: "length ?t = nat max_length + 15"
    by (rule length_truncate_for_log_long [OF assms])
  then have long: "max_length < int (length ?t)"
    using assms by simp
  have "truncate_for_log ?t max_length = take (nat max_length) ?t @ lit ''... [truncated]''"
    by (rule truncate_for_log_long [OF assms(1) long])
  also have "take (nat max_length) ?t = take (nat max_length) text"
    using assms by (simp add: eq)
  finally show ?thesis
    by (simp add: eq)
qed

text \<open>
  C6. The truncator is a function of its arguments alone, and for a maximum length
  (a non-negative number) it is idempotent on its own truncated output: for every text
  with \<open>len(text) > max_length\<close>, where the marker is shorter than the excess trimmed,
  truncating the truncated text again with the same \<open>max_length\<close> returns it unchanged.
\<close>

theorem truncate_for_log_idempotent:
  assumes "0 \<le> max_length" and "max_length < int (length text)"
    and "int (length (lit ''... [truncated]'')) < int (length text) - max_length"
  shows "truncate_for_log (truncate_for_log text max_length) max_length
           = truncate_for_log text max_length"
  by (rule truncate_for_log_twice [OF assms(1,2)])

theorem truncate_for_log_idempotent_witness:
  "(0::int) \<le> 5 \<and> 5 < int (length (lit ''abcdefghijklmnopqrstuvwxyz'')) \<and>
   int (length (lit ''... [truncated]'')) < int (length (lit ''abcdefghijklmnopqrstuvwxyz'')) - 5 \<and>
   truncate_for_log (lit ''abcdefghijklmnopqrstuvwxyz'') 5 = lit ''abcde... [truncated]'' \<and>
   truncate_for_log (truncate_for_log (lit ''abcdefghijklmnopqrstuvwxyz'') 5) 5
     = lit ''abcde... [truncated]''"
proof -
  have h1: "(0::int) \<le> 5" by simp
  have h2: "5 < int (length (lit ''abcdefghijklmnopqrstuvwxyz''))" by (simp add: lit_def)
  have h3: "int (length (lit ''... [truncated]''))
              < int (length (lit ''abcdefghijklmnopqrstuvwxyz'')) - 5"
    by (simp add: lit_def)
  have v: "truncate_for_log (lit ''abcdefghijklmnopqrstuvwxyz'') 5 = lit ''abcde... [truncated]''"
    by (simp add: truncate_for_log_def slice_to_def lit_def)
  from truncate_for_log_idempotent [OF h1 h2 h3] h1 h2 h3 v show ?thesis
    by (simp only: v simp_thms)
qed

section \<open>Properties of \<open>run_shell_command\<close>\<close>

subsection \<open>The \<open>try\<close> block\<close>

lemma attempt_success: "success (fst (attempt e command t)) = (return_code (fst (attempt e command t)) = 0)"
  by (auto simp: attempt_def Let_def split: sum.splits prod.splits if_splits)

lemma attempt_runs:
  "filter is_run (snd (attempt e command t)) = [RunInteractive [lit ''/bin/bash'', lit ''-c'', command] t]"
  by (auto simp: attempt_def Let_def split: sum.splits prod.splits if_splits)

lemma attempt_no_prompt: "filter is_prompt (snd (attempt e command t)) = []"
  by (auto simp: attempt_def Let_def split: sum.splits prod.splits if_splits)

lemma attempt_ignores_answer: "attempt (e\<lparr>answer := a\<rparr>) command t = attempt e command t"
  by (simp add: attempt_def Let_def split: sum.splits prod.splits)

lemma attempt_converts_exception:
  assumes "run_interactive_command e [lit ''/bin/bash'', lit ''-c'', command] t = Inl ex"
  shows "fst (attempt e command t) = \<lparr>output_text = str_of ex, return_code = 1, success = False\<rparr>"
  using assms by (simp add: attempt_def Let_def)

lemma cowboy_banner_plain: "filter is_prompt (cowboy_banner e) = []" "filter is_run (cowboy_banner e) = []"
  by (simp_all add: cowboy_banner_def)


lemma lit_neq:
  "lit ''y'' \<noteq> lit ''n''" "lit ''y'' \<noteq> lit ''c''" "lit ''c'' \<noteq> lit ''n''"
  "lit ''n'' \<noteq> lit ''y''" "lit ''c'' \<noteq> lit ''y''" "lit ''n'' \<noteq> lit ''c''"
  by (simp_all add: lit_def)

subsection \<open>The two modes\<close>

lemma run_shell_command_cowboy:
  assumes "truthy (cowboy_mode mem)"
  shows "run_shell_command e mem command t =
           (Inr (fst (attempt e command t)), mem,
            cowboy_banner e @ [ConsolePanel command (lit ''Shell'') (lit ''bright_yellow'')]
              @ snd (attempt e command t))"
  using assms by (simp add: run_shell_command_def Let_def split: prod.splits)

lemma run_shell_command_asked:
  assumes "\<not> truthy (cowboy_mode mem)"
  shows "run_shell_command e mem command t =
     (let asked = [ConsolePanel command (lit ''Shell'') (lit ''bright_yellow''),
                   PromptAsk prompt_text [lit ''y'', lit ''n'', lit ''c''] (lit ''y'')];
          response = (case answer e of None \<Rightarrow> lit ''y'' | Some r \<Rightarrow> r)
      in if response = lit ''n'' then (Inr cancelled, mem, asked @ [Print])
         else if response = lit ''c'' then
           (case set_cowboy_mode mem of
              Inl err \<Rightarrow> (Inl err, mem, asked)
            | Inr mem' \<Rightarrow> (Inr (fst (attempt e command t)), mem',
                           asked @ cowboy_banner e @ snd (attempt e command t)))
         else (Inr (fst (attempt e command t)), mem, asked @ snd (attempt e command t)))"
  using assms by (simp add: run_shell_command_def Let_def Prompt_ask_def split: prod.splits sum.splits)

lemmas eval_defs = run_shell_command_def Let_def fixture_def echo_hello_def spawn_fails_def
  cowboy_mode_def set_cowboy_mode_def Prompt_ask_def attempt_def cancelled_def cowboy_banner_def
  prompt_text_def truncate_for_log_def slice_to_def lit_def

subsection \<open>Results\<close>

text \<open>
  C1. Every result that \<open>run_shell_command\<close> returns, on the denial path, after a normal
  completion and after an exception was converted, has \<open>success = (return_code == 0)\<close>.
\<close>

theorem run_shell_command_success_iff:
  assumes "fst (run_shell_command e mem command t) = Inr r"
  shows "success r = (return_code r = 0)"
proof (cases "truthy (cowboy_mode mem)")
  case True
  with assms show ?thesis
    by (auto simp: run_shell_command_cowboy attempt_success)
next
  case False
  with assms show ?thesis
    by (auto simp: run_shell_command_asked Let_def cancelled_def attempt_success
             split: if_splits sum.splits)
qed

theorem run_shell_command_success_iff_witness:
  "outcome (run_shell_command (fixture None echo_hello) Map.empty (lit ''echo hello'') 30)
     = Inr \<lparr>output_text = lit ''hello'' @ [10], return_code = 0, success = True\<rparr> \<and>
   success \<lparr>output_text = lit ''hello'' @ [10], return_code = 0, success = True\<rparr>
     = (return_code \<lparr>output_text = lit ''hello'' @ [10], return_code = 0, success = True\<rparr> = 0)"
proof -
  have h: "outcome (run_shell_command (fixture None echo_hello) Map.empty (lit ''echo hello'') 30)
     = Inr \<lparr>output_text = lit ''hello'' @ [10], return_code = 0, success = True\<rparr>"
    by (simp add: eval_defs)
  from run_shell_command_success_iff [OF h] h show ?thesis
    by simp
qed

subsection \<open>The gate\<close>

text \<open>
  C2. When the session is not in unattended mode and the user answers \<open>n\<close>, the result is
  exactly \<open>{output: "Command execution cancelled by user", return_code: 1, success: false}\<close>
  and the supervisor is never invoked: no call of it is among the events, and replacing
  the supervisor by any other changes nothing.
\<close>

theorem deny_cancels_without_running:
  assumes "\<not> truthy (cowboy_mode mem)" and "answer e = Some (lit ''n'')"
  shows "outcome (run_shell_command e mem command t) =
           Inr \<lparr>output_text = lit ''Command execution cancelled by user'',
                return_code = 1, success = False\<rparr> \<and>
         filter is_run (events (run_shell_command e mem command t)) = [] \<and>
         run_shell_command (e\<lparr>run_interactive_command := f\<rparr>) mem command t
           = run_shell_command e mem command t"
  using assms by (simp add: run_shell_command_asked Let_def cancelled_def)

theorem deny_cancels_without_running_witness:
  "\<not> truthy (cowboy_mode Map.empty) \<and>
   answer (fixture (Some (lit ''n'')) echo_hello) = Some (lit ''n'') \<and>
   outcome (run_shell_command (fixture (Some (lit ''n'')) echo_hello) Map.empty (lit ''echo hello'') 30)
     = Inr \<lparr>output_text = lit ''Command execution cancelled by user'',
            return_code = 1, success = False\<rparr> \<and>
   filter is_run
     (events (run_shell_command (fixture (Some (lit ''n'')) echo_hello) Map.empty (lit ''echo hello'') 30))
     = [] \<and>
   run_shell_command ((fixture (Some (lit ''n'')) echo_hello)\<lparr>run_interactive_command := spawn_fails\<rparr>)
       Map.empty (lit ''echo hello'') 30
     = run_shell_command (fixture (Some (lit ''n'')) echo_hello) Map.empty (lit ''echo hello'') 30"
proof -
  have h1: "\<not> truthy (cowboy_mode Map.empty)"
    by (simp add: cowboy_mode_def)
  have h2: "answer (fixture (Some (lit ''n'')) echo_hello) = Some (lit ''n'')"
    by (simp add: fixture_def)
  from deny_cancels_without_running [OF h1 h2] h1 h2 show ?thesis
    by blast
qed



text \<open>
  When not in unattended mode the gate asks once, for one of \<open>y\<close>, \<open>n\<close>, \<open>c\<close> with default
  \<open>y\<close>. The answer \<open>y\<close> runs the command and leaves the session memory alone, and without
  an explicit answer the call behaves as for \<open>y\<close>.
\<close>

lemma gate_prompts_once:
  assumes "\<not> truthy (cowboy_mode mem)"
  shows "filter is_prompt (events (run_shell_command e mem command t))
           = [PromptAsk prompt_text [lit ''y'', lit ''n'', lit ''c''] (lit ''y'')]"
  using assms
  by (simp add: run_shell_command_asked Let_def attempt_no_prompt cowboy_banner_plain
        split: sum.splits)

lemma gate_yes_runs:
  assumes "\<not> truthy (cowboy_mode mem)" and "answer e = Some (lit ''y'')"
  shows "run_shell_command e mem command t =
           (Inr (fst (attempt e command t)), mem,
            [ConsolePanel command (lit ''Shell'') (lit ''bright_yellow''),
             PromptAsk prompt_text [lit ''y'', lit ''n'', lit ''c''] (lit ''y'')]
            @ snd (attempt e command t))"
  using assms by (simp add: run_shell_command_asked Let_def lit_neq)

lemma gate_default_is_yes:
  assumes "\<not> truthy (cowboy_mode mem)" and "answer e = None"
  shows "run_shell_command e mem command t
           = run_shell_command (e\<lparr>answer := Some (lit ''y'')\<rparr>) mem command t"
  using assms by (simp add: run_shell_command_asked Let_def lit_neq attempt_ignores_answer)

subsection \<open>Promotion of the session\<close>

text \<open>
  Once the flag is set, a call leaves the session memory as it is; and the promotion
  write sets the flag whenever the \<open>"config"\<close> entry exists, so that later calls do not
  prompt.
\<close>

lemma cowboy_mode_after_set:
  "set_cowboy_mode mem = Inr mem' \<Longrightarrow> truthy (cowboy_mode mem')"
  by (auto simp: set_cowboy_mode_def cowboy_mode_def split: option.splits)

lemma cowboy_mode_never_reset:
  assumes "truthy (cowboy_mode mem)"
  shows "memory_after (run_shell_command e mem command t) = mem"
  using assms by (simp add: run_shell_command_cowboy)

lemma cowboy_mode_monotone:
  assumes "truthy (cowboy_mode mem)"
  shows "truthy (cowboy_mode (memory_after (run_shell_command e mem command t)))"
  using assms by (simp add: cowboy_mode_never_reset)

lemma promotion_with_config:
  assumes "\<not> truthy (cowboy_mode mem)" and "answer e = Some (lit ''c'')"
    and "mem (lit ''config'') = Some cfg"
  shows "truthy (cowboy_mode (memory_after (run_shell_command e mem command t)))"
    and "filter is_run (events (run_shell_command e mem command t))
           = [RunInteractive [lit ''/bin/bash'', lit ''-c'', command] t]"
    and "filter is_prompt
           (events (run_shell_command e'
              (memory_after (run_shell_command e mem command t)) command' t')) = []"
proof -
  from assms(3) obtain mem' where set: "set_cowboy_mode mem = Inr mem'"
    by (simp add: set_cowboy_mode_def)
  with assms(1,2) have after: "memory_after (run_shell_command e mem command t) = mem'"
    by (simp add: run_shell_command_asked Let_def lit_neq)
  show flag: "truthy (cowboy_mode (memory_after (run_shell_command e mem command t)))"
    unfolding after by (rule cowboy_mode_after_set [OF set])
  show "filter is_run (events (run_shell_command e mem command t))
           = [RunInteractive [lit ''/bin/bash'', lit ''-c'', command] t]"
    using assms(1,2) set
    by (simp add: run_shell_command_asked Let_def lit_neq attempt_runs cowboy_banner_plain)
  show "filter is_prompt
           (events (run_shell_command e'
              (memory_after (run_shell_command e mem command t)) command' t')) = []"
    using flag by (simp add: run_shell_command_cowboy attempt_no_prompt cowboy_banner_plain)
qed

text \<open>
  C10. When the session memory has no \<open>"config"\<close> entry the flag still reads as false, and
  the answer \<open>c\<close> then makes the call leave with \<open>KeyError\<close> for the key \<open>"config"\<close>:
  the memory is unchanged and the supervisor is not invoked.
\<close>

theorem missing_config_promotion_raises:
  assumes "mem (lit ''config'') = None"
  shows "\<not> truthy (cowboy_mode mem) \<and>
         (answer e = Some (lit ''c'') \<longrightarrow>
            outcome (run_shell_command e mem command t) = Inl (KeyError (lit ''config'')) \<and>
            memory_after (run_shell_command e mem command t) = mem \<and>
            filter is_run (events (run_shell_command e mem command t)) = [])"
proof -
  from assms have flag: "\<not> truthy (cowboy_mode mem)"
    by (simp add: cowboy_mode_def)
  from assms have raise: "set_cowboy_mode mem = Inl (KeyError (lit ''config''))"
    by (simp add: set_cowboy_mode_def)
  show ?thesis
    using flag by (simp add: run_shell_command_asked Let_def lit_neq raise)
qed

theorem missing_config_promotion_raises_witness:
  "(Map.empty :: memory) (lit ''config'') = None \<and>
   \<not> truthy (cowboy_mode Map.empty) \<and>
   answer (fixture (Some (lit ''c'')) echo_hello) = Some (lit ''c'') \<and>
   outcome (run_shell_command (fixture (Some (lit ''c'')) echo_hello) Map.empty (lit ''echo hello'') 30)
     = Inl (KeyError (lit ''config'')) \<and>
   memory_after (run_shell_command (fixture (Some (lit ''c'')) echo_hello) Map.empty (lit ''echo hello'') 30)
     = Map.empty \<and>
   filter is_run
     (events (run_shell_command (fixture (Some (lit ''c'')) echo_hello) Map.empty (lit ''echo hello'') 30))
     = []"
proof -
  have h: "(Map.empty :: memory) (lit ''config'') = None"
    by simp
  have a: "answer (fixture (Some (lit ''c'')) echo_hello) = Some (lit ''c'')"
    by (simp add: fixture_def)
  from missing_config_promotion_raises [OF h, of "fixture (Some (lit ''c'')) echo_hello"] h a
  show ?thesis
    by blast
qed

text \<open>
  C3. The flag is meant to be monotonic, and choosing \<open>c\<close> is meant to set it before the
  command runs, so that no later call prompts. On a session memory without a \<open>"config"\<close>
  entry the code does not do that: the first call, answered \<open>c\<close>, leaves with \<open>KeyError\<close>,
  runs nothing and leaves the flag unset, and the next call prompts again.
\<close>

theorem promotion_lost_without_config:
  "outcome (run_shell_command (fixture (Some (lit ''c'')) echo_hello) Map.empty (lit ''echo hello'') 30)
     = Inl (KeyError (lit ''config'')) \<and>
   filter is_run
     (events (run_shell_command (fixture (Some (lit ''c'')) echo_hello) Map.empty (lit ''echo hello'') 30))
     = [] \<and>
   \<not> truthy (cowboy_mode (memory_after
       (run_shell_command (fixture (Some (lit ''c'')) echo_hello) Map.empty (lit ''echo hello'') 30))) \<and>
   filter is_prompt
     (events (run_shell_command (fixture (Some (lit ''y'')) echo_hello)
        (memory_after
           (run_shell_command (fixture (Some (lit ''c'')) echo_hello) Map.empty (lit ''echo hello'') 30))
        (lit ''echo hello'') 30))
     = [PromptAsk prompt_text [lit ''y'', lit ''n'', lit ''c''] (lit ''y'')]"
proof -
  have first: "run_shell_command (fixture (Some (lit ''c'')) echo_hello) Map.empty (lit ''echo hello'') 30
     = (Inl (KeyError (lit ''config'')), Map.empty,
        [ConsolePanel (lit ''echo hello'') (lit ''Shell'') (lit ''bright_yellow''),
         PromptAsk prompt_text [lit ''y'', lit ''n'', lit ''c''] (lit ''y'')])"
    by (simp add: run_shell_command_def Let_def cowboy_mode_def set_cowboy_mode_def
          Prompt_ask_def fixture_def lit_neq)
  have second: "filter is_prompt
     (events (run_shell_command (fixture (Some (lit ''y'')) echo_hello) Map.empty (lit ''echo hello'') 30))
     = [PromptAsk prompt_text [lit ''y'', lit ''n'', lit ''c''] (lit ''y'')]"
    by (simp add: run_shell_command_asked Let_def cowboy_mode_def fixture_def lit_neq
          attempt_no_prompt)
  show ?thesis
    by (simp add: first second cowboy_mode_def)
qed

text \<open>
  C8. The gate asks for one of \<open>y\<close>, \<open>n\<close>, \<open>c\<close>, and \<open>c\<close> is meant to run the command
  and promote the session. On a session memory without a \<open>"config"\<close> entry the code does
  neither: after the one prompt the call leaves with \<open>KeyError\<close>, the supervisor has not
  been called and the memory is as before.
\<close>

theorem promote_choice_neither_runs_nor_promotes:
  "run_shell_command (fixture (Some (lit ''c'')) echo_hello) Map.empty (lit ''pwd'') 30
     = (Inl (KeyError (lit ''config'')), Map.empty,
        [ConsolePanel (lit ''pwd'') (lit ''Shell'') (lit ''bright_yellow''),
         PromptAsk prompt_text [lit ''y'', lit ''n'', lit ''c''] (lit ''y'')])"
  by (simp add: run_shell_command_def Let_def cowboy_mode_def set_cowboy_mode_def
        Prompt_ask_def fixture_def lit_neq)

subsection \<open>Exceptions\<close>

text \<open>
  An exception of the supervisor becomes a result, and \<open>KeyError\<close> is the only exception
  that leaves the function, on one path only.
\<close>

lemma supervisor_exception_converted:
  assumes "run_interactive_command e [lit ''/bin/bash'', lit ''-c'', command] t = Inl ex"
    and "filter is_run (events (run_shell_command e mem command t)) \<noteq> []"
  shows "outcome (run_shell_command e mem command t)
           = Inr \<lparr>output_text = str_of ex, return_code = 1, success = False\<rparr>"
proof (cases "truthy (cowboy_mode mem)")
  case True
  then show ?thesis
    by (simp add: run_shell_command_cowboy attempt_converts_exception [OF assms(1)])
next
  case False
  with assms(2) show ?thesis
    by (auto simp: run_shell_command_asked Let_def attempt_converts_exception [OF assms(1)]
             split: if_splits sum.splits)
qed

lemma run_shell_command_raises_iff:
  "(\<exists>err. outcome (run_shell_command e mem command t) = Inl err) \<longleftrightarrow>
     \<not> truthy (cowboy_mode mem) \<and> answer e = Some (lit ''c'') \<and> mem (lit ''config'') = None"
proof (cases "truthy (cowboy_mode mem)")
  case True
  then show ?thesis
    by (simp add: run_shell_command_cowboy)
next
  case False
  then show ?thesis
    by (auto simp: run_shell_command_asked Let_def set_cowboy_mode_def lit_neq
             split: option.splits if_splits)
qed

text \<open>
  C9. An exception of the supervisor is caught and turned into a result, but not every
  path returns a result: on a session memory without a \<open>"config"\<close> entry, the answer \<open>c\<close>
  makes the function leave with \<open>KeyError\<close> before the \<open>try\<close> block is reached.
\<close>

theorem key_error_escapes:
  "outcome (run_shell_command (fixture (Some (lit ''c'')) spawn_fails) Map.empty (lit ''ls'') 30)
     = Inl (KeyError (lit ''config''))"
  by (simp add: run_shell_command_def Let_def cowboy_mode_def set_cowboy_mode_def
        Prompt_ask_def fixture_def lit_neq)

section \<open>Properties of the process supervisor\<close>

declare supervise.simps [simp del]

subsection \<open>When a child has exited\<close>

lemma exited_later:
  assumes "exited c sent now" and "now \<le> later"
  shows "exited c sent later"
proof -
  have "list_ex (\<lambda>(at, sg). sg = SIGTERM \<and> at + d \<le> later) sent"
    if "list_ex (\<lambda>(at, sg). sg = SIGTERM \<and> at + d \<le> now) sent" for d
  proof -
    from that obtain at where "(at, SIGTERM) \<in> set sent" and "at + d \<le> now"
      by (auto simp: list_ex_iff)
    with assms(2) have "(at, SIGTERM) \<in> set sent" and "at + d \<le> later"
      by simp_all
    then show ?thesis
      by (force simp: list_ex_iff)
  qed
  with assms show ?thesis
    by (auto simp: exited_def split: option.splits)
qed

lemma exited_no_signal:
  "exited c [] now \<longleftrightarrow> (\<exists>n. exits_after c = Some n \<and> n \<le> now)"
  by (auto simp: exited_def split: option.splits)

lemma exited_after_term:
  "exited c [(at, SIGTERM)] now \<longleftrightarrow>
     (\<exists>n. exits_after c = Some n \<and> n \<le> now) \<or> (\<exists>d. term_delay c = Some d \<and> at + d \<le> now)"
  by (auto simp: exited_def split: option.splits)

subsection \<open>The waiting loop\<close>

text \<open>
  While the child has not exited and no threshold is due, the loop only advances the
  clock. A threshold is due at \<open>kill_at\<close>, and at \<open>term_at\<close> as long as the graceful signal
  has not been sent.
\<close>

lemma supervise_skip:
  assumes "now \<le> m" and "m \<le> kill_at" and "GraceRequested \<in> set path \<or> m \<le> term_at"
    and "\<And>t. t < m \<Longrightarrow> \<not> exited c sent t"
  shows "supervise c term_at kill_at now path sent = supervise c term_at kill_at m path sent"
  using assms(1)
proof (induction "m - now" arbitrary: now)
  case 0
  then show ?case by simp
next
  case (Suc k)
  then have lt: "now < m" and k: "k = m - Suc now" and le: "Suc now \<le> m"
    by simp_all
  from lt assms(4) have alive: "\<not> exited c sent now"
    by simp
  from lt assms(2) have no_kill: "\<not> kill_at \<le> now"
    by simp
  from lt assms(3) have no_term: "\<not> (GraceRequested \<notin> set path \<and> term_at \<le> now)"
    by auto
  have "supervise c term_at kill_at now path sent
          = supervise c term_at kill_at (Suc now) path sent"
    by (subst supervise.simps) (simp only: alive no_kill no_term if_False)
  with Suc.hyps(1) [OF k le] show ?case
    by simp
qed

text \<open>
  A child that exits before the next threshold is reaped when it exits: no further signal
  is sent.
\<close>

lemma supervise_exits:
  assumes "now \<le> b" and "b \<le> kill_at" and "GraceRequested \<in> set path \<or> b \<le> term_at"
    and "exited c sent b"
  shows "signals (supervise c term_at kill_at now path sent) = sent \<and>
         phases (supervise c term_at kill_at now path sent) = path @ [Reaped] \<and>
         exit_code (supervise c term_at kill_at now path sent) = exit_status c \<and>
         finished_at (supervise c term_at kill_at now path sent) \<le> b"
  using assms(1)
proof (induction "b - now" arbitrary: now)
  case 0
  then have "now = b" by simp
  with assms(4) show ?case
    by (simp add: supervise.simps [of c term_at kill_at b path sent])
next
  case (Suc k)
  then have lt: "now < b" and k: "k = b - Suc now" and le: "Suc now \<le> b"
    by simp_all
  show ?case
  proof (cases "exited c sent now")
    case True
    with lt show ?thesis
      by (simp add: supervise.simps [of c term_at kill_at now path sent])
  next
    case False
    from lt assms(2) have no_kill: "\<not> kill_at \<le> now"
      by simp
    from lt assms(3) have no_term: "\<not> (GraceRequested \<notin> set path \<and> term_at \<le> now)"
      by auto
    have "supervise c term_at kill_at now path sent
            = supervise c term_at kill_at (Suc now) path sent"
      by (subst supervise.simps) (simp only: False no_kill no_term if_False)
    with Suc.hyps(1) [OF k le] show ?thesis
      by simp
  qed
qed

subsection \<open>The three courses of a supervision\<close>

text \<open>The supervisor never waits beyond the kill threshold.\<close>

lemma supervise_finished_at:
  "finished_at (supervise c term_at kill_at now path sent) \<le> max now kill_at"
proof (induction c term_at kill_at now path sent rule: supervise.induct)
  case (1 c term_at kill_at now path sent)
  show ?case
  proof (cases "exited c sent now")
    case True
    then show ?thesis
      by (simp add: supervise.simps [of c term_at kill_at now path sent])
  next
    case False
    note running = this
    show ?thesis
    proof (cases "GraceRequested \<notin> set path \<and> term_at \<le> now")
      case True
      with running "1.IH"(1) show ?thesis
        by (simp add: supervise.simps [of c term_at kill_at now path sent])
    next
      case False
      note no_term = this
      show ?thesis
      proof (cases "kill_at \<le> now")
        case True
        with running no_term show ?thesis
          by (auto simp add: supervise.simps [of c term_at kill_at now path sent])
      next
        case False
        with running no_term "1.IH"(2) have
          "finished_at (supervise c term_at kill_at (Suc now) path sent) \<le> max (Suc now) kill_at"
          by simp
        with False running no_term show ?thesis
          by (auto simp add: supervise.simps [of c term_at kill_at now path sent])
      qed
    qed
  qed
qed

lemma supervise_not_before:
  "now \<le> finished_at (supervise c term_at kill_at now path sent)"
proof (induction c term_at kill_at now path sent rule: supervise.induct)
  case (1 c term_at kill_at now path sent)
  show ?case
  proof (cases "exited c sent now")
    case True
    then show ?thesis
      by (simp add: supervise.simps [of c term_at kill_at now path sent])
  next
    case False
    note alive = this
    show ?thesis
    proof (cases "GraceRequested \<notin> set path \<and> term_at \<le> now")
      case True
      with alive "1.IH"(1) show ?thesis
        by (simp add: supervise.simps [of c term_at kill_at now path sent])
    next
      case False
      note no_term = this
      show ?thesis
      proof (cases "kill_at \<le> now")
        case True
        with alive no_term show ?thesis
          by (auto simp add: supervise.simps [of c term_at kill_at now path sent])
      next
        case False
        with alive no_term "1.IH"(2) have
          "Suc now \<le> finished_at (supervise c term_at kill_at (Suc now) path sent)"
          by simp
        with False alive no_term show ?thesis
          by (auto simp add: supervise.simps [of c term_at kill_at now path sent])
      qed
    qed
  qed
qed

lemma supervise_reaps_early:
  assumes "term_at \<le> kill_at" and "exited c [] term_at"
  shows "signals (supervise c term_at kill_at 0 [Running] []) = [] \<and>
         phases (supervise c term_at kill_at 0 [Running] []) = [Running, Reaped] \<and>
         exit_code (supervise c term_at kill_at 0 [Running] []) = exit_status c \<and>
         finished_at (supervise c term_at kill_at 0 [Running] []) \<le> term_at"
  using supervise_exits [of 0 term_at kill_at "[Running]" term_at c "[]"] assms
  by simp

lemma supervise_requests_grace:
  assumes "term_at \<le> kill_at" and "\<not> exited c [] term_at"
  shows "supervise c term_at kill_at 0 [Running] []
           = supervise c term_at kill_at term_at [Running, GraceRequested] [(term_at, SIGTERM)]"
proof -
  have alive: "\<not> exited c [] t" if "t < term_at" for t
    using that assms(2) exited_later [of c "[]" t term_at] by auto
  have "supervise c term_at kill_at 0 [Running] [] = supervise c term_at kill_at term_at [Running] []"
    by (rule supervise_skip) (use assms(1) alive in simp_all)
  also have "\<dots> = supervise c term_at kill_at term_at ([Running] @ [GraceRequested])
                     ([] @ [(term_at, SIGTERM)])"
    using assms(2) by (subst supervise.simps) simp
  finally show ?thesis
    by simp
qed

lemma supervise_reaps_after_grace:
  assumes "term_at \<le> kill_at" and "\<not> exited c [] term_at"
    and "exited c [(term_at, SIGTERM)] kill_at"
  shows "signals (supervise c term_at kill_at 0 [Running] []) = [(term_at, SIGTERM)] \<and>
         phases (supervise c term_at kill_at 0 [Running] []) = [Running, GraceRequested, Reaped] \<and>
         exit_code (supervise c term_at kill_at 0 [Running] []) = exit_status c \<and>
         term_at \<le> finished_at (supervise c term_at kill_at 0 [Running] []) \<and>
         finished_at (supervise c term_at kill_at 0 [Running] []) \<le> kill_at"
proof -
  note start = supervise_requests_grace [OF assms(1,2)]
  have "signals (supervise c term_at kill_at term_at [Running, GraceRequested] [(term_at, SIGTERM)])
          = [(term_at, SIGTERM)] \<and>
        phases (supervise c term_at kill_at term_at [Running, GraceRequested] [(term_at, SIGTERM)])
          = [Running, GraceRequested] @ [Reaped] \<and>
        exit_code (supervise c term_at kill_at term_at [Running, GraceRequested] [(term_at, SIGTERM)])
          = exit_status c \<and>
        finished_at (supervise c term_at kill_at term_at [Running, GraceRequested] [(term_at, SIGTERM)])
          \<le> kill_at"
    by (rule supervise_exits) (use assms(1,3) in simp_all)
  moreover have "term_at \<le> finished_at
      (supervise c term_at kill_at term_at [Running, GraceRequested] [(term_at, SIGTERM)])"
    by (rule supervise_not_before)
  ultimately show ?thesis
    by (simp add: start)
qed

lemma supervise_kills:
  assumes "term_at \<le> kill_at" and "\<not> exited c [(term_at, SIGTERM)] kill_at"
  shows "supervise c term_at kill_at 0 [Running] [] =
           \<lparr>raw_output = child_output c, exit_code = - 9,
            signals = [(term_at, SIGTERM), (kill_at, SIGKILL)], finished_at = kill_at,
            phases = [Running, GraceRequested, ForceKilled, Reaped]\<rparr>"
proof -
  let ?sent = "[(term_at, SIGTERM)]"
  have alive: "\<not> exited c ?sent t" if "t \<le> kill_at" for t
    using that assms(2) exited_later [of c ?sent t kill_at] by auto
  from alive [OF assms(1)] have "\<not> exited c [] term_at"
    by (auto simp: exited_no_signal exited_after_term)
  then have "supervise c term_at kill_at 0 [Running] []
               = supervise c term_at kill_at term_at [Running, GraceRequested] ?sent"
    by (rule supervise_requests_grace [OF assms(1)])
  also have "\<dots> = supervise c term_at kill_at kill_at [Running, GraceRequested] ?sent"
    by (rule supervise_skip) (use assms(1) alive in simp_all)
  also have "\<dots> = \<lparr>raw_output = child_output c, exit_code = - 9,
            signals = ?sent @ [(kill_at, SIGKILL)], finished_at = kill_at,
            phases = [Running, GraceRequested] @ [ForceKilled, Reaped]\<rparr>"
    using alive [of kill_at] by (subst supervise.simps) simp
  finally show ?thesis
    by simp
qed


subsection \<open>Escalation\<close>

text \<open>
  C4. \<open>execute\<close> always returns, no later than \<open>3 * expected_runtime_seconds\<close>. A child that
  has exited on its own by \<open>2 * expected_runtime_seconds\<close> is reaped without any signal.
  Every other child is sent the graceful termination signal at
  \<open>2 * expected_runtime_seconds\<close>; if it exits by \<open>3 * expected_runtime_seconds\<close> it is
  reaped, and if it has not exited by then (on its own or because of the graceful signal)
  it is sent the forceful kill at \<open>3 * expected_runtime_seconds\<close> and reaped, after the
  states \<open>Running\<close>, \<open>GraceRequested\<close>, \<open>ForceKilled\<close>, \<open>Reaped\<close>.
\<close>

theorem execute_escalates_and_returns:
  assumes "0 < T"
    and "spawn [lit ''/bin/bash'', lit ''-c'', command] = Inr c"
  shows "\<exists>r. execute spawn command T = Inr r \<and>
           finished_at r \<le> nat (3 * T) \<and>
           (exited c [] (nat (2 * T)) \<longrightarrow>
              signals r = [] \<and> phases r = [Running, Reaped] \<and>
              exit_code r = exit_status c \<and> finished_at r \<le> nat (2 * T)) \<and>
           (\<not> exited c [] (nat (2 * T)) \<and> exited c [(nat (2 * T), SIGTERM)] (nat (3 * T)) \<longrightarrow>
              signals r = [(nat (2 * T), SIGTERM)] \<and>
              phases r = [Running, GraceRequested, Reaped] \<and>
              exit_code r = exit_status c \<and> nat (2 * T) \<le> finished_at r) \<and>
           (\<not> exited c [(nat (2 * T), SIGTERM)] (nat (3 * T)) \<longrightarrow>
              signals r = [(nat (2 * T), SIGTERM), (nat (3 * T), SIGKILL)] \<and>
              phases r = [Running, GraceRequested, ForceKilled, Reaped] \<and>
              exit_code r = - 9 \<and> finished_at r = nat (3 * T))"
proof -
  let ?r = "supervise c (nat (2 * T)) (nat (3 * T)) 0 [Running] []"
  from assms(1) have le: "nat (2 * T) \<le> nat (3 * T)"
    by simp
  have run: "execute spawn command T = Inr ?r"
    by (simp add: execute_def assms(2))
  have "finished_at ?r \<le> max 0 (nat (3 * T))"
    by (rule supervise_finished_at)
  then have bound: "finished_at ?r \<le> nat (3 * T)"
    by simp
  have early: "signals ?r = [] \<and> phases ?r = [Running, Reaped] \<and>
               exit_code ?r = exit_status c \<and> finished_at ?r \<le> nat (2 * T)"
    if "exited c [] (nat (2 * T))"
    by (rule supervise_reaps_early [OF le that])
  have grace: "signals ?r = [(nat (2 * T), SIGTERM)] \<and>
               phases ?r = [Running, GraceRequested, Reaped] \<and>
               exit_code ?r = exit_status c \<and> nat (2 * T) \<le> finished_at ?r"
    if "\<not> exited c [] (nat (2 * T)) \<and> exited c [(nat (2 * T), SIGTERM)] (nat (3 * T))"
    using supervise_reaps_after_grace [OF le, of c] that by blast
  have kill: "signals ?r = [(nat (2 * T), SIGTERM), (nat (3 * T), SIGKILL)] \<and>
              phases ?r = [Running, GraceRequested, ForceKilled, Reaped] \<and>
              exit_code ?r = - 9 \<and> finished_at ?r = nat (3 * T)"
    if "\<not> exited c [(nat (2 * T), SIGTERM)] (nat (3 * T))"
    by (simp add: supervise_kills [OF le that])
  from run bound early grace kill show ?thesis
    by blast
qed

theorem execute_escalates_and_returns_witness:
  "(0::int) < 1 \<and>
   \<not> exited sleeper [(2, SIGTERM)] 3 \<and>
   (\<exists>r. execute (\<lambda>argv. Inr sleeper) (lit ''sleep 10'') 1 = Inr r \<and>
        signals r = [(2, SIGTERM), (3, SIGKILL)] \<and>
        phases r = [Running, GraceRequested, ForceKilled, Reaped] \<and>
        exit_code r = - 9 \<and> finished_at r = 3) \<and>
   \<not> exited obedient [] 2 \<and> exited obedient [(2, SIGTERM)] 3 \<and>
   (\<exists>r. execute (\<lambda>argv. Inr obedient) (lit ''sleep 10'') 1 = Inr r \<and>
        signals r = [(2, SIGTERM)] \<and> phases r = [Running, GraceRequested, Reaped] \<and>
        finished_at r \<le> 3) \<and>
   exited quick [] 2 \<and>
   (\<exists>r. execute (\<lambda>argv. Inr quick) (lit ''echo hello'') 1 = Inr r \<and>
        signals r = [] \<and> phases r = [Running, Reaped] \<and> exit_code r = 0 \<and> finished_at r \<le> 2)"
proof -
  have t: "(0::int) < 1" "nat (2 * 1) = 2" "nat (3 * 1) = 3"
    by simp_all
  have s: "\<not> exited sleeper [(2, SIGTERM)] 3"
    by (simp add: exited_def sleeper_def)
  have ob: "\<not> exited obedient [] 2 \<and> exited obedient [(2, SIGTERM)] 3"
    by (simp add: exited_def obedient_def)
  have q: "exited quick [] 2" "exit_status quick = 0"
    by (simp_all add: exited_def quick_def)
  from execute_escalates_and_returns
      [of 1 "\<lambda>argv. Inr sleeper" "lit ''sleep 10''" sleeper, OF t(1) refl] s
  have 1: "\<exists>r. execute (\<lambda>argv. Inr sleeper) (lit ''sleep 10'') 1 = Inr r \<and>
        signals r = [(2, SIGTERM), (3, SIGKILL)] \<and>
        phases r = [Running, GraceRequested, ForceKilled, Reaped] \<and>
        exit_code r = - 9 \<and> finished_at r = 3"
    unfolding t by blast
  from execute_escalates_and_returns
      [of 1 "\<lambda>argv. Inr obedient" "lit ''sleep 10''" obedient, OF t(1) refl] ob
  have 2: "\<exists>r. execute (\<lambda>argv. Inr obedient) (lit ''sleep 10'') 1 = Inr r \<and>
        signals r = [(2, SIGTERM)] \<and> phases r = [Running, GraceRequested, Reaped] \<and>
        finished_at r \<le> 3"
    unfolding t by blast
  from execute_escalates_and_returns
      [of 1 "\<lambda>argv. Inr quick" "lit ''echo hello''" quick, OF t(1) refl] q
  have 3: "\<exists>r. execute (\<lambda>argv. Inr quick) (lit ''echo hello'') 1 = Inr r \<and>
        signals r = [] \<and> phases r = [Running, Reaped] \<and> exit_code r = 0 \<and> finished_at r \<le> 2"
    unfolding t by metis
  from t(1) s ob q(1) 1 2 3 show ?thesis
    by blast
qed

end
